theory Spec2Isabelle
  imports Complex_Main "HOL-Library.Multiset" "HOL-Library.Word"
begin

section \<open>EPC\_OPT.py: the EPC grouping and compression analyzer\<close>

text \<open>
  \<^verbatim>\<open>EPCAnalyzer.__init__\<close> sets \<^verbatim>\<open>self.min_prefix_length = 6\<close>; nothing ever assigns the
  attribute again.
\<close>

definition min_prefix_length :: nat where
  "min_prefix_length = 6"

text \<open>
  \<^verbatim>\<open>common_len = sum(1 for a, b in zip(base, remaining[i]) if a == b)\<close>:
  \<^verbatim>\<open>zip\<close> stops at the shorter string, and every pair of equal characters counts.
\<close>

definition common_len :: "string \<Rightarrow> string \<Rightarrow> nat" where
  "common_len base cand = length (filter (\<lambda>(a, b). a = b) (zip base cand))"

text \<open>\<^verbatim>\<open>remaining.pop(i)\<close> for an index in range: the list without its element \<open>i\<close>.\<close>

definition pop :: "nat \<Rightarrow> 'a list \<Rightarrow> 'a list" where
  "pop i xs = take i xs @ drop (Suc i) xs"

text \<open>
  The inner loop of \<^verbatim>\<open>group_and_analyze\<close> (lines 61 to 67), with the loop state
  \<^verbatim>\<open>remaining\<close>, \<^verbatim>\<open>i\<close>, \<^verbatim>\<open>group\<close> passed explicitly:
  \<^verbatim>\<open>
  i = 0
  while i < len(remaining):
      common_len = sum(1 for a, b in zip(base, remaining[i]) if a == b)
      if common_len >= self.min_prefix_length:
          group.append(remaining.pop(i))
      else:
          i += 1
  \<close>
  It returns the finished group and what is left of the pool (\<open>grp\<close> stands for the
  source's \<^verbatim>\<open>group\<close>, a name HOL already uses).
\<close>

function inner_scan ::
  "string \<Rightarrow> string list \<Rightarrow> nat \<Rightarrow> string list \<Rightarrow> string list \<times> string list" where
  "inner_scan base remaining i grp =
     (if i < length remaining then
        (if common_len base (remaining ! i) \<ge> min_prefix_length
         then inner_scan base (pop i remaining) i (grp @ [remaining ! i])
         else inner_scan base remaining (i + 1) grp)
      else (grp, remaining))"
  by pat_completeness auto
termination
  by (relation "measure (\<lambda>(base, remaining, i, grp). length remaining - i)")
     (auto simp: pop_def)

declare inner_scan.simps [simp del]

lemma inner_scan_length:
  "length (snd (inner_scan base remaining i grp)) \<le> length remaining"
proof (induction base remaining i grp rule: inner_scan.induct)
  case (1 base remaining i grp)
  show ?case
  proof (cases "i < length remaining")
    case False
    then show ?thesis by (simp add: inner_scan.simps [of base remaining])
  next
    case True
    show ?thesis
    proof (cases "common_len base (remaining ! i) \<ge> min_prefix_length")
      case True
      have "length (pop i remaining) \<le> length remaining"
        by (simp add: pop_def)
      with "1.IH"(1) [OF \<open>i < length remaining\<close> True] \<open>i < length remaining\<close> True
      show ?thesis by (simp add: inner_scan.simps [of base remaining])
    next
      case False
      with "1.IH"(2) [OF \<open>i < length remaining\<close> False] \<open>i < length remaining\<close>
      show ?thesis by (simp add: inner_scan.simps [of base remaining])
    qed
  qed
qed

text \<open>
  The outer loop (lines 52 to 68):
  \<^verbatim>\<open>
  groups = []
  remaining = epcs[:]
  while remaining:
      base = remaining.pop(0)
      group = [base]
      ... inner loop ...
      groups.append(group)
  \<close>
\<close>

function outer_loop :: "string list \<Rightarrow> string list list \<Rightarrow> string list list" where
  "outer_loop remaining groups =
     (case remaining of
        [] \<Rightarrow> groups
      | base # rest \<Rightarrow>
          outer_loop (snd (inner_scan base rest 0 [base]))
                     (groups @ [fst (inner_scan base rest 0 [base])]))"
  by pat_completeness auto
termination
  by (relation "measure (\<lambda>(remaining, groups). length remaining)")
     (auto simp: inner_scan_length less_Suc_eq_le)

declare outer_loop.simps [simp del]

definition make_groups :: "string list \<Rightarrow> string list list" where
  "make_groups epcs = outer_loop epcs []"

text \<open>
  The statistics of one group (lines 73 to 119). Python's \<^verbatim>\<open>int\<close> is \<open>int\<close>; \<^verbatim>\<open>//\<close> rounds
  towards minus infinity, as \<open>div\<close> does. The one float of the row, \<^verbatim>\<open>Compression_%\<close>, is
  modelled by an exact real: the rounding of IEEE doubles is not modelled.
\<close>

record row =
  Group_ID :: nat
  Prefix :: string
  Prefix_Bytes :: int
  Suffix_Bytes :: int
  Suffix_Count :: int
  Total_Payload_Bytes :: int
  EPCs_SF7_51B :: int
  EPCs_SF12_11B :: int
  Compression_pct :: real

text \<open>
  \<^verbatim>\<open>len(min(group, key=len))\<close>: the length of a shortest member. Python raises on an empty
  group; every group holds its base, so the first equation is never reached
  (lemma \<open>make_groups_nonempty\<close> below).
\<close>

fun shortest_len :: "string list \<Rightarrow> nat" where
  "shortest_len [] = 0"
| "shortest_len [s] = length s"
| "shortest_len (s # ss) = min (length s) (shortest_len ss)"

text \<open>
  \<^verbatim>\<open>sum(1 for chars in zip(*group) if len(set(chars)) == 1)\<close>: \<^verbatim>\<open>zip(*group)\<close> yields column
  \<open>i\<close> of the group for every \<open>i\<close> below the shortest length; a column counts when it
  holds one distinct character.
\<close>

definition column :: "string list \<Rightarrow> nat \<Rightarrow> char list" where
  "column grp i = map (\<lambda>s. s ! i) grp"

definition unanimous_columns :: "string list \<Rightarrow> nat" where
  "unanimous_columns grp =
     length (filter (\<lambda>i. length (remdups (column grp i)) = 1) [0..<shortest_len grp])"

text \<open>
  \<^verbatim>\<open>round(x, 1)\<close> on exact values: to the nearest tenth, a tie to the even neighbour.
  Python rounds the double, which lies slightly off an exact tie: where the exact
  percentage ends in 5 at the second decimal (41.55 for 500 members and a prefix of 10
  characters) Python may report the other neighbour (41.5, here 41.6). No property
  below reads the percentage of a group of two or more.
\<close>

definition py_round1 :: "real \<Rightarrow> real" where
  "py_round1 x =
     (let y = x * 10; f = \<lfloor>y\<rfloor> in
      (if y - of_int f < 1 / 2 then of_int f
       else if y - of_int f > 1 / 2 then of_int (f + 1)
       else if even f then of_int f else of_int (f + 1)) / 10)"

definition analyze_group :: "nat \<Rightarrow> string list \<Rightarrow> row" where
  "analyze_group gid grp =
     (if length grp = 1 then
        \<lparr>Group_ID = gid, Prefix = [], Prefix_Bytes = 0, Suffix_Bytes = 12,
         Suffix_Count = 1, Total_Payload_Bytes = 14, EPCs_SF7_51B = 3,
         EPCs_SF12_11B = 0, Compression_pct = 0\<rparr>
      else
        (let prefix_len = min (shortest_len grp)
                              (max min_prefix_length (unanimous_columns grp));
             prefix = take prefix_len (hd grp);
             prefix_bytes = int prefix_len div 2;
             suffix_bytes = (24 - int prefix_len) div 2;
             suffix_count = int (length grp);
             total_payload = 2 + prefix_bytes + suffix_count * suffix_bytes;
             overhead = 2 + prefix_bytes;
             epcs_sf7 = (if suffix_bytes > 0 then max 0 ((51 - overhead) div suffix_bytes) else 0);
             epcs_sf12 = (if suffix_bytes > 0 then max 0 ((11 - overhead) div suffix_bytes) else 0);
             uncompressed = int (length grp) * 12;
             compression = py_round1 (real_of_int (uncompressed - total_payload)
                                       / real_of_int uncompressed * 100)
         in \<lparr>Group_ID = gid, Prefix = prefix, Prefix_Bytes = prefix_bytes,
             Suffix_Bytes = suffix_bytes, Suffix_Count = suffix_count,
             Total_Payload_Bytes = total_payload, EPCs_SF7_51B = epcs_sf7,
             EPCs_SF12_11B = epcs_sf12, Compression_pct = compression\<rparr>))"

text \<open>
  \<^verbatim>\<open>for gid, group in enumerate(groups, 1)\<close>: the rows, one per group, numbered from 1.
  The model returns the list of rows that the source wraps into a DataFrame.
\<close>

definition enumerate1 :: "'a list \<Rightarrow> (nat \<times> 'a) list" where
  "enumerate1 xs = zip [1..<Suc (length xs)] xs"

definition group_and_analyze :: "string list \<Rightarrow> row list" where
  "group_and_analyze epcs =
     map (\<lambda>(gid, grp). analyze_group gid grp) (enumerate1 (make_groups epcs))"

subsection \<open>The greedy pass in the words of the specification\<close>

text \<open>
  The specification describes the grouping as a greedy pass: the first remaining EPC is
  the base of a group, every later remaining EPC joins that group exactly when it
  passes the join test against the base, and the pass goes on with the EPCs that did
  not join. \<open>greedy_pass\<close> is that description, with the join test as a parameter.
\<close>

function greedy_pass :: "(string \<Rightarrow> string \<Rightarrow> bool) \<Rightarrow> string list \<Rightarrow> string list list" where
  "greedy_pass joins [] = []"
| "greedy_pass joins (base # rest) =
     (base # filter (joins base) rest) # greedy_pass joins (filter (\<lambda>c. \<not> joins base c) rest)"
  by pat_completeness auto
termination
  by (relation "measure (\<lambda>(joins, pool). length pool)") (auto simp: less_Suc_eq_le)

text \<open>
  The join test of the specification: the number of positions \<open>i\<close> of the 24 where
  \<open>base[i] == candidate[i]\<close> is at least 6.
\<close>

definition positional_equality_count :: "string \<Rightarrow> string \<Rightarrow> nat" where
  "positional_equality_count base cand = length (filter (\<lambda>i. base ! i = cand ! i) [0..<24])"

definition spec_joins :: "string \<Rightarrow> string \<Rightarrow> bool" where
  "spec_joins base cand \<longleftrightarrow> 6 \<le> positional_equality_count base cand"

section \<open>Testing.py: the LoRaWAN airtime and capacity calculator\<close>

text \<open>
  Every \<^verbatim>\<open>raise\<close> of the class and every exception of the operations it calls is a
  value: \<open>TooManyEPCs\<close> is the \<^verbatim>\<open>ValueError\<close> of \<^verbatim>\<open>create_lorawan_payload\<close> (the
  specification's CapacityExceeded) and carries the maximum that its message prints,
  \<open>PayloadTooShort\<close> the \<^verbatim>\<open>ValueError\<close> of \<^verbatim>\<open>decode_payload\<close> (the specification's
  Malformed), \<open>FromHexError\<close> the \<^verbatim>\<open>ValueError\<close> of \<^verbatim>\<open>bytes.fromhex\<close>.
\<close>

datatype error = TooManyEPCs int | PayloadTooShort | FromHexError | ZeroDivisionError

text \<open>
  Python's \<^verbatim>\<open>float\<close> is modelled by \<open>real\<close>: the arithmetic below is exact, the rounding
  and the overflow of IEEE doubles are not modelled.
\<close>

subsection \<open>The configuration\<close>

text \<open>
  \<^verbatim>\<open>__init__\<close> assigns \<^verbatim>\<open>self.epc_size_bytes = 12\<close> and \<^verbatim>\<open>self.header_size = 4\<close> from
  literals, and no method assigns an attribute afterwards: these two are constants.
\<close>

definition epc_size_bytes :: int where
  "epc_size_bytes = 12"

definition header_size :: int where
  "header_size = 4"

record calculator =
  sf :: int
  bw :: int
  cr :: int
  max_payload_size :: int
  max_epcs_per_packet :: int

text \<open>\<^verbatim>\<open>sf_limits = {7: 230, 8: 230, 9: 123, 10: 59, 11: 59, 12: 51}\<close>\<close>

definition sf_limits :: "int \<rightharpoonup> int" where
  "sf_limits = [7 \<mapsto> 230, 8 \<mapsto> 230, 9 \<mapsto> 123, 10 \<mapsto> 59, 11 \<mapsto> 59, 12 \<mapsto> 51]"

text \<open>\<^verbatim>\<open>_calculate_max_payload_size\<close>: \<^verbatim>\<open>sf_limits.get(self.sf, 51)\<close>\<close>

definition calculate_max_payload_size :: "int \<Rightarrow> int" where
  "calculate_max_payload_size spreading =
     (case sf_limits spreading of None \<Rightarrow> 51 | Some limit \<Rightarrow> limit)"

text \<open>
  \<^verbatim>\<open>__init__(self, sf=12, bw=125, cr=1, payload_size=None)\<close>; the argument
  \<^verbatim>\<open>payload_size\<close> is an option.
\<close>

definition init :: "int \<Rightarrow> int \<Rightarrow> int \<Rightarrow> int option \<Rightarrow> calculator" where
  "init spreading bandwidth coding payload_size =
     (let mps = (case payload_size of
                   None \<Rightarrow> calculate_max_payload_size spreading
                 | Some given \<Rightarrow> given)
      in \<lparr>sf = spreading, bw = bandwidth, cr = coding, max_payload_size = mps,
          max_epcs_per_packet = (mps - header_size) div epc_size_bytes\<rparr>)"

subsection \<open>Airtime\<close>

record airtime =
  T_sym_ms :: real
  T_pream_ms :: real
  N_payload :: real
  T_payload_ms :: real
  T_frame_ms :: real
  EPC_frame :: int

text \<open>\<^verbatim>\<open>2**self.sf\<close>: an integer power, a fraction for a negative exponent.\<close>

definition pow2 :: "int \<Rightarrow> real" where
  "pow2 e = (if 0 \<le> e then 2 ^ nat e else 1 / 2 ^ nat (- e))"

text \<open>
  \<^verbatim>\<open>calculate_airtime_parameters\<close> (lines 64 to 95). The two divisions raise
  \<^verbatim>\<open>ZeroDivisionError\<close> on a zero divisor: \<^verbatim>\<open>self.bw * 1000\<close> first, \<^verbatim>\<open>4 * (self.sf - 2)\<close>
  next. The divisor of \<^verbatim>\<open>EPC_frame\<close> is the constant 12.
\<close>

definition calculate_airtime_parameters :: "calculator \<Rightarrow> int \<Rightarrow> error + airtime" where
  "calculate_airtime_parameters self payload_bytes =
     (if bw self * 1000 = 0 then Inl ZeroDivisionError
      else
        (let T_sym = pow2 (sf self) / real_of_int (bw self * 1000);
             T_pream = (8 + 4.25) * T_sym;
             PL_H = (if sf self \<ge> 11 then 1 else 0 :: int)
         in if 4 * (sf self - 2) = 0 then Inl ZeroDivisionError
            else
              (let N_pl = 8 + max (real_of_int (8 * payload_bytes - 4 * sf self + 28 + 16 - 20 * PL_H)
                                     / real_of_int (4 * (sf self - 2))) 0
                                * real_of_int (cr self + 4);
                   T_payload = N_pl * T_sym;
                   T_frame = T_pream + T_payload;
                   EPC_fr = \<lfloor>real_of_int (max_payload_size self - header_size)
                               / real_of_int epc_size_bytes\<rfloor>
               in Inr \<lparr>T_sym_ms = T_sym * 1000, T_pream_ms = T_pream * 1000,
                       N_payload = N_pl, T_payload_ms = T_payload * 1000,
                       T_frame_ms = T_frame * 1000, EPC_frame = EPC_fr\<rparr>)))"

subsection \<open>The transmission plan\<close>

record plan =
  total_epcs :: int
  frames_needed :: int
  epcs_per_frame :: int
  frame_duration_ms :: real
  batch_duration_ms :: real
  batch_duration_s :: real
  max_batches_per_day :: int
  max_epcs_per_day :: int
  parameters :: airtime

text \<open>
  The local variables of \<^verbatim>\<open>calculate_transmission_plan\<close> (lines 107 to 122), each with the
  exceptions that can stop the method before it is assigned.

  \<^verbatim>\<open>N_frames = math.ceil(total_epcs / self.max_epcs_per_packet)\<close>
\<close>

definition N_frames :: "calculator \<Rightarrow> int \<Rightarrow> error + int" where
  "N_frames self n_epcs =
     (if max_epcs_per_packet self = 0 then Inl ZeroDivisionError
      else Inr \<lceil>real_of_int n_epcs / real_of_int (max_epcs_per_packet self)\<rceil>)"

text \<open>
  \<^verbatim>\<open>params_700\<close>, \<^verbatim>\<open>T_frame_700\<close> and \<^verbatim>\<open>T_batch_700\<close> (lines 111 to 113) are computed and
  never read; the call can raise, the division by \<^verbatim>\<open>self.max_epcs_per_packet\<close> cannot
  any more.

  \<^verbatim>\<open>T_batch_current = N_frames * T_frame_current\<close>, with
  \<^verbatim>\<open>params_current = self.calculate_airtime_parameters(self.max_payload_size)\<close>
\<close>

definition T_batch_current :: "calculator \<Rightarrow> int \<Rightarrow> error + real" where
  "T_batch_current self n_epcs =
     (case N_frames self n_epcs of
        Inl e \<Rightarrow> Inl e
      | Inr frames \<Rightarrow>
          (case calculate_airtime_parameters self (max_payload_size self) of
             Inl e \<Rightarrow> Inl e
           | Inr params_700 \<Rightarrow>
               (case calculate_airtime_parameters self (max_payload_size self) of
                  Inl e \<Rightarrow> Inl e
                | Inr params_current \<Rightarrow>
                    Inr (real_of_int frames * T_frame_ms params_current))))"

text \<open>
  \<^verbatim>\<open>lots_per_day = math.floor(T_max_per_day / T_batch_current)\<close> with
  \<^verbatim>\<open>T_max_per_day = 864000\<close>: a float division, which raises on a zero divisor.
\<close>

definition lots_per_day :: "calculator \<Rightarrow> int \<Rightarrow> error + int" where
  "lots_per_day self n_epcs =
     (case T_batch_current self n_epcs of
        Inl e \<Rightarrow> Inl e
      | Inr batch \<Rightarrow>
          if batch = 0 then Inl ZeroDivisionError else Inr \<lfloor>864000 / batch\<rfloor>)"

definition calculate_transmission_plan :: "calculator \<Rightarrow> int \<Rightarrow> error + plan" where
  "calculate_transmission_plan self n_epcs =
     (case N_frames self n_epcs of
        Inl e \<Rightarrow> Inl e
      | Inr frames \<Rightarrow>
          (case calculate_airtime_parameters self (max_payload_size self) of
             Inl e \<Rightarrow> Inl e
           | Inr params_current \<Rightarrow>
               (case T_batch_current self n_epcs of
                  Inl e \<Rightarrow> Inl e
                | Inr batch \<Rightarrow>
                    (case lots_per_day self n_epcs of
                       Inl e \<Rightarrow> Inl e
                     | Inr lots \<Rightarrow>
                         Inr \<lparr>total_epcs = n_epcs, frames_needed = frames,
                              epcs_per_frame = max_epcs_per_packet self,
                              frame_duration_ms = T_frame_ms params_current,
                              batch_duration_ms = batch,
                              batch_duration_s = batch / 1000,
                              max_batches_per_day = lots,
                              max_epcs_per_day = lots * n_epcs,
                              parameters = params_current\<rparr>))))"

subsection \<open>The packet codec\<close>

unbundle bit_operations_syntax

type_synonym byte = "8 word"

text \<open>
  \<^verbatim>\<open>create_packet_header\<close> (lines 136 to 139). The clock is an argument: \<open>now\<close> is
  \<^verbatim>\<open>int(datetime.now().timestamp())\<close>. \<^verbatim>\<open>struct.pack('>BBH', ...)\<close> writes one byte, one
  byte and the two bytes of the timestamp, the high one first; the three masks keep
  every value in the range of its field.
\<close>

definition create_packet_header :: "int \<Rightarrow> int \<Rightarrow> int \<Rightarrow> byte list" where
  "create_packet_header now pkt_id n_epcs =
     (let stamp = now AND 0xFFFF
      in [word_of_int (pkt_id AND 0xFF), word_of_int (n_epcs AND 0xFF),
          word_of_int (stamp div 256), word_of_int (stamp mod 256)])"

text \<open>
  \<^verbatim>\<open>bytes.fromhex\<close>: ASCII whitespace before a byte is skipped; a byte is two
  hexadecimal digits of either case; anything else raises \<^verbatim>\<open>ValueError\<close> (\<open>None\<close> here).
\<close>

definition isspace :: "char \<Rightarrow> bool" where
  "isspace c \<longleftrightarrow> (of_char c :: nat) \<in> {9, 10, 11, 12, 13, 32}"

definition hexval :: "char \<Rightarrow> nat option" where
  "hexval c =
     (let n = (of_char c :: nat) in
      if 48 \<le> n \<and> n \<le> 57 then Some (n - 48)
      else if 97 \<le> n \<and> n \<le> 102 then Some (n - 87)
      else if 65 \<le> n \<and> n \<le> 70 then Some (n - 55)
      else None)"

fun fromhex :: "string \<Rightarrow> byte list option" where
  "fromhex [] = Some []"
| "fromhex [c] = (if isspace c then Some [] else None)"
| "fromhex (c # d # ds) =
     (if isspace c then fromhex (d # ds)
      else (case (hexval c, hexval d) of
              (Some hi, Some lo) \<Rightarrow>
                (case fromhex ds of
                   None \<Rightarrow> None
                 | Some bs \<Rightarrow> Some (word_of_nat (hi * 16 + lo) # bs))
            | _ \<Rightarrow> None))"

text \<open>\<^verbatim>\<open>bytes.hex()\<close>: two lower-case digits for every byte.\<close>

definition hexdigits :: string where
  "hexdigits = ''0123456789abcdef''"

definition hex :: "byte list \<Rightarrow> string" where
  "hex bs = concat (map (\<lambda>b. [hexdigits ! (unat b div 16), hexdigits ! (unat b mod 16)]) bs)"

text \<open>\<^verbatim>\<open>str.upper()\<close> on ASCII text: the letters a to z move to A to Z.\<close>

definition upper_char :: "char \<Rightarrow> char" where
  "upper_char c =
     (case map_of (zip ''abcdefghijklmnopqrstuvwxyz'' ''ABCDEFGHIJKLMNOPQRSTUVWXYZ'') c of
        None \<Rightarrow> c
      | Some capital \<Rightarrow> capital)"

definition upper :: "string \<Rightarrow> string" where
  "upper s = map upper_char s"

text \<open>
  \<^verbatim>\<open>b''.join(bytes.fromhex(epc) for epc in epcs)\<close>: the first EPC that does not parse
  stops the join.
\<close>

fun join_fromhex :: "string list \<Rightarrow> byte list option" where
  "join_fromhex [] = Some []"
| "join_fromhex (epc # rest) =
     (case fromhex epc of
        None \<Rightarrow> None
      | Some bs \<Rightarrow> (case join_fromhex rest of None \<Rightarrow> None | Some tail_bytes \<Rightarrow> Some (bs @ tail_bytes)))"

text \<open>\<^verbatim>\<open>create_lorawan_payload\<close> (lines 141 to 149), with the clock as an argument.\<close>

definition create_lorawan_payload ::
  "calculator \<Rightarrow> int \<Rightarrow> string list \<Rightarrow> int \<Rightarrow> error + byte list" where
  "create_lorawan_payload self now epc_list pkt_id =
     (if int (length epc_list) > max_epcs_per_packet self
      then Inl (TooManyEPCs (max_epcs_per_packet self))
      else
        (let header = create_packet_header now pkt_id (int (length epc_list))
         in case join_fromhex epc_list of
              None \<Rightarrow> Inl FromHexError
            | Some epc_bytes \<Rightarrow> Inr (header @ epc_bytes)))"

record decoded =
  packet_id :: nat
  epc_count :: nat
  timestamp :: nat
  epcs :: "string list"

text \<open>
  The loop of \<^verbatim>\<open>decode_payload\<close> (lines 163 to 172) over \<^verbatim>\<open>range(epc_count)\<close>; \<open>acc\<close> is
  the list \<^verbatim>\<open>epcs\<close> built so far, and the \<^verbatim>\<open>break\<close> returns it:
  \<^verbatim>\<open>
  for i in range(epc_count):
      start_idx = i * self.epc_size_bytes
      end_idx = start_idx + self.epc_size_bytes
      if end_idx > len(epc_data):
          break
      epc_bytes = epc_data[start_idx:end_idx]
      epc_hex = epc_bytes.hex().upper()
      epcs.append(epc_hex)
  \<close>
\<close>

fun decode_loop :: "byte list \<Rightarrow> nat list \<Rightarrow> string list \<Rightarrow> string list" where
  "decode_loop epc_data [] acc = acc"
| "decode_loop epc_data (i # later) acc =
     (let start_idx = i * nat epc_size_bytes;
          end_idx = start_idx + nat epc_size_bytes
      in if end_idx > length epc_data then acc
         else decode_loop epc_data later
                (acc @ [upper (hex (take (end_idx - start_idx) (drop start_idx epc_data)))]))"

text \<open>
  \<^verbatim>\<open>decode_payload\<close> (lines 151 to 179). \<^verbatim>\<open>struct.unpack('>BBH', payload[:4])\<close> reads the
  four header bytes, which are there once the length test has passed.
\<close>

definition decode_payload :: "calculator \<Rightarrow> byte list \<Rightarrow> error + decoded" where
  "decode_payload self payload =
     (if int (length payload) < header_size then Inl PayloadTooShort
      else
        (let pid = unat (payload ! 0);
             cnt = unat (payload ! 1);
             stamp = unat (payload ! 2) * 256 + unat (payload ! 3);
             epc_data = drop 4 payload
         in Inr \<lparr>packet_id = pid, epc_count = cnt, timestamp = stamp,
                 epcs = decode_loop epc_data [0..<cnt] []\<rparr>))"

text \<open>
  The validity test of \<^verbatim>\<open>load_epcs\<close> (EPC\_OPT.py, lines 26 and 36):
  \<^verbatim>\<open>len(epc) == 24 and all(c in '0123456789ABCDEFabcdef' for c in epc)\<close>
\<close>

definition valid_epc :: "string \<Rightarrow> bool" where
  "valid_epc epc \<longleftrightarrow> length epc = 24 \<and> (\<forall>c \<in> set epc. c \<in> set ''0123456789ABCDEFabcdef'')"

section \<open>Properties of the grouping\<close>

subsection \<open>The two loops compute the greedy pass\<close>

text \<open>
  The inner loop leaves the pool before \<open>i\<close> alone, moves every candidate from \<open>i\<close> on
  that passes the test to the group, in order, and keeps the others in the pool.
\<close>

lemma inner_scan_filter:
  "inner_scan base remaining i grp =
     (grp @ filter (\<lambda>c. min_prefix_length \<le> common_len base c) (drop i remaining),
      take i remaining @ filter (\<lambda>c. \<not> min_prefix_length \<le> common_len base c) (drop i remaining))"
proof (induction base remaining i grp rule: inner_scan.induct)
  case (1 base remaining i grp)
  show ?case
  proof (cases "i < length remaining")
    case False
    then show ?thesis by (simp add: inner_scan.simps [of base remaining])
  next
    case lt: True
    then have d: "drop i remaining = remaining ! i # drop (Suc i) remaining"
      by (simp add: Cons_nth_drop_Suc)
    show ?thesis
    proof (cases "common_len base (remaining ! i) \<ge> min_prefix_length")
      case True
      have p1: "drop i (pop i remaining) = drop (Suc i) remaining"
        using lt by (simp add: pop_def)
      have p2: "take i (pop i remaining) = take i remaining"
        using lt by (simp add: pop_def)
      show ?thesis
        using "1.IH"(1) [OF lt True] lt True
        by (simp add: inner_scan.simps [of base remaining] d p1 p2)
    next
      case False
      show ?thesis
        using "1.IH"(2) [OF lt False] lt False
        by (simp add: inner_scan.simps [of base remaining] d take_Suc_conv_app_nth)
    qed
  qed
qed

lemma outer_loop_greedy:
  "outer_loop remaining groups =
     groups @ greedy_pass (\<lambda>b c. min_prefix_length \<le> common_len b c) remaining"
proof (induction remaining groups rule: outer_loop.induct)
  case (1 remaining groups)
  show ?case
  proof (cases remaining)
    case Nil
    then show ?thesis by (simp add: outer_loop.simps [of "[]"])
  next
    case (Cons base rest)
    with "1.IH" [OF Cons] show ?thesis
      by (simp add: outer_loop.simps [of "base # rest"] inner_scan_filter)
  qed
qed

lemma make_groups_greedy:
  "make_groups epc_list = greedy_pass (\<lambda>b c. min_prefix_length \<le> common_len b c) epc_list"
  by (simp add: make_groups_def outer_loop_greedy)

lemma greedy_pass_cong:
  "(\<And>b c. b \<in> set pool \<Longrightarrow> c \<in> set pool \<Longrightarrow> P b c = Q b c) \<Longrightarrow>
   greedy_pass P pool = greedy_pass Q pool"
proof (induction P pool rule: greedy_pass.induct)
  case (1 joins)
  show ?case by simp
next
  case (2 joins base rest)
  have f1: "filter (joins base) rest = filter (Q base) rest"
    by (rule filter_cong) (auto simp: "2.prems")
  have f2: "filter (\<lambda>c. \<not> joins base c) rest = filter (\<lambda>c. \<not> Q base c) rest"
    by (rule filter_cong) (auto simp: "2.prems")
  have "greedy_pass joins (filter (\<lambda>c. \<not> joins base c) rest)
        = greedy_pass Q (filter (\<lambda>c. \<not> joins base c) rest)"
    by (rule "2.IH") (auto simp: "2.prems")
  with f1 f2 show ?case by simp
qed

lemma greedy_pass_mset: "mset (concat (greedy_pass P pool)) = mset pool"
  by (induction P pool rule: greedy_pass.induct) (simp_all add: multiset_partition [symmetric])

lemma greedy_pass_shape:
  "g \<in> set (greedy_pass P pool) \<Longrightarrow> \<exists>b ms. g = b # ms \<and> (\<forall>m \<in> set ms. P b m)"
  by (induction P pool rule: greedy_pass.induct) auto

lemma zip_filter_positions:
  "length a = length b \<Longrightarrow>
   length (filter (\<lambda>(x, y). x = y) (zip a b)) = length (filter (\<lambda>i. a ! i = b ! i) [0..<length a])"
proof (induction a b rule: list_induct2)
  case Nil
  show ?case by simp
next
  case (Cons x xs y ys)
  have "[0..<length (x # xs)] = 0 # map Suc [0..<length xs]"
    by (simp add: upt_conv_Cons map_Suc_upt del: upt_Suc)
  then show ?case using Cons.IH by (simp add: filter_map o_def del: upt_Suc)
qed

lemma common_len_positional:
  "length base = 24 \<Longrightarrow> length cand = 24 \<Longrightarrow>
   common_len base cand = positional_equality_count base cand"
  using zip_filter_positions [of base cand]
  by (simp add: common_len_def positional_equality_count_def del: upt_Suc)

lemma make_groups_nonempty: "[] \<notin> set (make_groups epc_list)"
  using greedy_pass_shape [of "[]" _ epc_list] by (auto simp: make_groups_greedy)

text \<open>
  C2: on every sequence of 24-character EPCs the groups that \<^verbatim>\<open>group_and_analyze\<close> forms
  are those of the greedy pass of the specification: the first remaining EPC is the
  base, a later remaining EPC joins exactly when at least 6 of the 24 positions hold
  the same character in the base and in the candidate, the joiners leave the pool,
  and the groups come in the order in which their bases were pulled.
\<close>

theorem make_groups_is_greedy_pass:
  assumes "\<forall>e \<in> set epc_list. length e = 24"
  shows "make_groups epc_list = greedy_pass spec_joins epc_list"
  unfolding make_groups_greedy
  by (rule greedy_pass_cong)
     (simp add: spec_joins_def min_prefix_length_def common_len_positional assms)

theorem make_groups_is_greedy_pass_witness:
  "list_all (\<lambda>e. length e = 24)
     [''AAAAAA000000000000000001'', ''BBBBBB000000BBBBBBBBBBBB'', ''CCCCCCCCCCCCCCCCCCCCCCCC''] \<and>
   make_groups
     [''AAAAAA000000000000000001'', ''BBBBBB000000BBBBBBBBBBBB'', ''CCCCCCCCCCCCCCCCCCCCCCCC'']
   = greedy_pass spec_joins
     [''AAAAAA000000000000000001'', ''BBBBBB000000BBBBBBBBBBBB'', ''CCCCCCCCCCCCCCCCCCCCCCCC''] \<and>
   greedy_pass spec_joins
     [''AAAAAA000000000000000001'', ''BBBBBB000000BBBBBBBBBBBB'', ''CCCCCCCCCCCCCCCCCCCCCCCC'']
   = [[''AAAAAA000000000000000001'', ''BBBBBB000000BBBBBBBBBBBB''],
      [''CCCCCCCCCCCCCCCCCCCCCCCC'']]"
proof -
  have h: "\<forall>e \<in> set [''AAAAAA000000000000000001'', ''BBBBBB000000BBBBBBBBBBBB'',
                      ''CCCCCCCCCCCCCCCCCCCCCCCC'']. length e = 24"
    by simp
  have v: "greedy_pass spec_joins
     [''AAAAAA000000000000000001'', ''BBBBBB000000BBBBBBBBBBBB'', ''CCCCCCCCCCCCCCCCCCCCCCCC'']
   = [[''AAAAAA000000000000000001'', ''BBBBBB000000BBBBBBBBBBBB''],
      [''CCCCCCCCCCCCCCCCCCCCCCCC'']]"
    by code_simp
  from make_groups_is_greedy_pass [OF h] v show ?thesis by simp
qed

text \<open>
  C3: the groups of \<^verbatim>\<open>group_and_analyze\<close> are a partition of the input. Every input EPC
  is in the groups as often as it is in the input (the groups, laid end to end, are a
  permutation of the input), and the sizes of the groups add up to the length of the
  input.
\<close>

theorem make_groups_partition:
  "mset (concat (make_groups epc_list)) = mset epc_list \<and>
   sum_list (map length (make_groups epc_list)) = length epc_list"
proof -
  have m: "mset (concat (make_groups epc_list)) = mset epc_list"
    by (simp add: make_groups_greedy greedy_pass_mset)
  have "length (concat (make_groups epc_list)) = length epc_list"
    using m by (metis size_mset)
  then show ?thesis using m by (simp add: length_concat)
qed

subsection \<open>The rows\<close>

text \<open>Row \<open>i\<close> of the result describes group \<open>i\<close> and carries the number \<open>i + 1\<close>.\<close>

lemma nth_enumerate1: "i < length xs \<Longrightarrow> enumerate1 xs ! i = (Suc i, xs ! i)"
  by (simp add: enumerate1_def del: upt_Suc)

lemma length_enumerate1: "length (enumerate1 xs) = length xs"
  by (simp add: enumerate1_def del: upt_Suc)

lemma length_group_and_analyze: "length (group_and_analyze epc_list) = length (make_groups epc_list)"
  by (simp add: group_and_analyze_def length_enumerate1)

lemma nth_group_and_analyze:
  "i < length (make_groups epc_list) \<Longrightarrow>
   group_and_analyze epc_list ! i = analyze_group (Suc i) (make_groups epc_list ! i)"
  by (simp add: group_and_analyze_def length_enumerate1 nth_enumerate1)

text \<open>
  C1 (as amended): the three EPCs AAAAAA000000000000000001, AAAAAA000000000000000002 and
  AAAAAA000000000000000003 are placed together in a single group. The three agree on
  their first 23 characters, and the billed prefix is the number of columns on which
  the whole group agrees, not the threshold 6: the row reports a prefix of 23
  characters, prefix\_bytes = 11, suffix\_bytes = 0 and total\_payload\_bytes
  = 2 + 11 + 3 * 0 = 13, which is less than 36.
\<close>

theorem three_epcs_one_group:
  "make_groups
     [''AAAAAA000000000000000001'', ''AAAAAA000000000000000002'',
      ''AAAAAA000000000000000003'']
   = [[''AAAAAA000000000000000001'', ''AAAAAA000000000000000002'',
      ''AAAAAA000000000000000003'']] \<and>
   length (group_and_analyze
     [''AAAAAA000000000000000001'', ''AAAAAA000000000000000002'',
      ''AAAAAA000000000000000003'']) = 1 \<and>
   Prefix (hd (group_and_analyze
     [''AAAAAA000000000000000001'', ''AAAAAA000000000000000002'',
      ''AAAAAA000000000000000003''])) = ''AAAAAA00000000000000000'' \<and>
   Prefix_Bytes (hd (group_and_analyze
     [''AAAAAA000000000000000001'', ''AAAAAA000000000000000002'',
      ''AAAAAA000000000000000003''])) = 11 \<and>
   Suffix_Bytes (hd (group_and_analyze
     [''AAAAAA000000000000000001'', ''AAAAAA000000000000000002'',
      ''AAAAAA000000000000000003''])) = 0 \<and>
   Suffix_Count (hd (group_and_analyze
     [''AAAAAA000000000000000001'', ''AAAAAA000000000000000002'',
      ''AAAAAA000000000000000003''])) = 3 \<and>
   Total_Payload_Bytes (hd (group_and_analyze
     [''AAAAAA000000000000000001'', ''AAAAAA000000000000000002'',
      ''AAAAAA000000000000000003''])) = 13 \<and>
   Total_Payload_Bytes (hd (group_and_analyze
     [''AAAAAA000000000000000001'', ''AAAAAA000000000000000002'',
      ''AAAAAA000000000000000003''])) < 36"
  by code_simp

text \<open>
  The values that C1 states (prefix\_bytes = 3, suffix\_bytes = 9, total\_payload\_bytes
  = 32) are not the ones of the row.
\<close>

theorem three_epcs_stated_values_counterexample:
  "length (group_and_analyze [''AAAAAA000000000000000001'', ''AAAAAA000000000000000002'',
      ''AAAAAA000000000000000003'']) = 1 \<and>
   Prefix_Bytes (hd (group_and_analyze [''AAAAAA000000000000000001'', ''AAAAAA000000000000000002'',
      ''AAAAAA000000000000000003''])) \<noteq> 3 \<and>
   Suffix_Bytes (hd (group_and_analyze [''AAAAAA000000000000000001'', ''AAAAAA000000000000000002'',
      ''AAAAAA000000000000000003''])) \<noteq> 9 \<and>
   Total_Payload_Bytes (hd (group_and_analyze [''AAAAAA000000000000000001'', ''AAAAAA000000000000000002'',
      ''AAAAAA000000000000000003''])) \<noteq> 32"
  by code_simp

text \<open>
  C8: the row of every group of size 1 holds the fixed values Prefix = "",
  Prefix\_Bytes = 0, Suffix\_Bytes = 12, Suffix\_Count = 1, Total\_Payload\_Bytes = 14,
  EPCs\_SF7\_51B = 3, EPCs\_SF12\_11B = 0 and Compression\_\% = 0 (and the number of
  the group).
\<close>

theorem singleton_row:
  assumes "i < length (make_groups epc_list)" and "length (make_groups epc_list ! i) = 1"
  shows "group_and_analyze epc_list ! i =
     \<lparr>Group_ID = i + 1, Prefix = [], Prefix_Bytes = 0, Suffix_Bytes = 12,
      Suffix_Count = 1, Total_Payload_Bytes = 14, EPCs_SF7_51B = 3,
      EPCs_SF12_11B = 0, Compression_pct = 0\<rparr>"
  using assms by (simp add: nth_group_and_analyze analyze_group_def)

theorem singleton_row_witness:
  "1 < length (make_groups [''AAAAAA000000000000000001'', ''BBBBBB000000BBBBBBBBBBBB'',
      ''CCCCCCCCCCCCCCCCCCCCCCCC'']) \<and>
   length (make_groups [''AAAAAA000000000000000001'', ''BBBBBB000000BBBBBBBBBBBB'',
      ''CCCCCCCCCCCCCCCCCCCCCCCC''] ! 1) = 1 \<and>
   group_and_analyze [''AAAAAA000000000000000001'', ''BBBBBB000000BBBBBBBBBBBB'',
      ''CCCCCCCCCCCCCCCCCCCCCCCC''] ! 1
   = \<lparr>Group_ID = 2, Prefix = [], Prefix_Bytes = 0, Suffix_Bytes = 12,
      Suffix_Count = 1, Total_Payload_Bytes = 14, EPCs_SF7_51B = 3,
      EPCs_SF12_11B = 0, Compression_pct = 0\<rparr>"
proof -
  have a: "1 < length (make_groups [''AAAAAA000000000000000001'', ''BBBBBB000000BBBBBBBBBBBB'',
      ''CCCCCCCCCCCCCCCCCCCCCCCC''])"
    by code_simp
  have b: "length (make_groups [''AAAAAA000000000000000001'', ''BBBBBB000000BBBBBBBBBBBB'',
      ''CCCCCCCCCCCCCCCCCCCCCCCC''] ! 1) = 1"
    by code_simp
  from singleton_row [OF a b] a b show ?thesis by simp
qed

subsection \<open>Compression saves bytes\<close>

text \<open>
  A candidate joins a group only when it agrees with the base on at least 6 positions,
  so the base and every member of a group of two or more are at least 6 characters
  long, and the billed prefix is at least 6 characters.
\<close>

lemma common_len_le: "common_len a b \<le> length a \<and> common_len a b \<le> length b"
proof -
  have "common_len a b \<le> length (zip a b)"
    unfolding common_len_def by (rule length_filter_le)
  then show ?thesis by simp
qed

lemma shortest_len_ge:
  "grp \<noteq> [] \<Longrightarrow> \<forall>s \<in> set grp. n \<le> length s \<Longrightarrow> n \<le> shortest_len grp"
  by (induction grp rule: shortest_len.induct) auto

lemma group_members_long:
  assumes g: "g \<in> set (make_groups epc_list)" and two: "2 \<le> length g"
  shows "min_prefix_length \<le> shortest_len g"
proof -
  from g obtain b ms where s: "g = b # ms"
    and j: "\<forall>m \<in> set ms. min_prefix_length \<le> common_len b m"
    using greedy_pass_shape [of g "\<lambda>b c. min_prefix_length \<le> common_len b c" epc_list]
    by (auto simp: make_groups_greedy)
  from two s obtain m ms' where ms: "ms = m # ms'" by (cases ms) auto
  with j have "min_prefix_length \<le> common_len b m" by simp
  with common_len_le [of b m] have b: "min_prefix_length \<le> length b" by linarith
  have "\<forall>s \<in> set g. min_prefix_length \<le> length s"
  proof
    fix x assume "x \<in> set g"
    with s have "x = b \<or> x \<in> set ms" by auto
    then show "min_prefix_length \<le> length x"
    proof
      assume "x = b" with b show ?thesis by simp
    next
      assume "x \<in> set ms"
      with j have "min_prefix_length \<le> common_len b x" by simp
      with common_len_le [of b x] show ?thesis by linarith
    qed
  qed
  with s show ?thesis by (intro shortest_len_ge) auto
qed

lemma payload_arith:
  fixes p :: nat and n :: int
  assumes p: "6 \<le> p" and n: "2 \<le> n"
  shows "2 + int p div 2 + n * ((24 - int p) div 2) < 12 * n"
proof -
  define pb where "pb = int p div 2"
  define sb where "sb = (24 - int p) div 2"
  have pb3: "3 \<le> pb" using p unfolding pb_def by linarith
  have le: "sb \<le> 12 - pb" unfolding pb_def sb_def by linarith
  have "n * sb \<le> n * (12 - pb)"
    using le n by (intro mult_left_mono) auto
  moreover have "(n - 1) * 3 \<le> (n - 1) * pb"
    using pb3 n by (intro mult_left_mono) auto
  ultimately have "2 + pb + n * sb \<le> 2 + pb + n * 12 - n * pb" and "n * 3 - 3 \<le> n * pb - pb"
    by (simp_all add: algebra_simps)
  then show ?thesis using n unfolding pb_def sb_def by linarith
qed

text \<open>
  C5: for every group of size at least 2 that \<^verbatim>\<open>group_and_analyze\<close> forms, whenever the
  reported prefix\_bytes is positive, the reported total\_payload\_bytes is strictly
  less than 12 * suffix\_count.
\<close>

theorem compression_saves:
  assumes i: "i < length (make_groups epc_list)"
    and two: "2 \<le> length (make_groups epc_list ! i)"
    and pos: "0 < Prefix_Bytes (group_and_analyze epc_list ! i)"
  shows "Total_Payload_Bytes (group_and_analyze epc_list ! i)
         < 12 * Suffix_Count (group_and_analyze epc_list ! i)"
proof -
  define g where "g = make_groups epc_list ! i"
  have mem: "g \<in> set (make_groups epc_list)" using i by (simp add: g_def)
  have sl: "min_prefix_length \<le> shortest_len g"
    using group_members_long [OF mem] two by (simp add: g_def)
  define p where "p = min (shortest_len g) (max min_prefix_length (unanimous_columns g))"
  have p6: "6 \<le> p" using sl by (simp add: p_def min_prefix_length_def)
  have n2: "2 \<le> int (length g)" using two by (simp add: g_def)
  have ne: "length g \<noteq> 1" using two by (simp add: g_def)
  have row: "group_and_analyze epc_list ! i = analyze_group (Suc i) g"
    using i by (simp add: nth_group_and_analyze g_def)
  have "Total_Payload_Bytes (analyze_group (Suc i) g)
        = 2 + int p div 2 + int (length g) * ((24 - int p) div 2)"
    using ne by (simp add: analyze_group_def Let_def p_def)
  moreover have "Suffix_Count (analyze_group (Suc i) g) = int (length g)"
    using ne by (simp add: analyze_group_def Let_def)
  ultimately show ?thesis
    using payload_arith [OF p6 n2] by (simp add: row)
qed

theorem compression_saves_witness:
  "0 < length (make_groups [''AAAAAA000000000000000001'', ''AAAAAA000000000000000002'',
      ''AAAAAA000000000000000003'']) \<and>
   2 \<le> length (make_groups [''AAAAAA000000000000000001'', ''AAAAAA000000000000000002'',
      ''AAAAAA000000000000000003''] ! 0) \<and>
   0 < Prefix_Bytes (group_and_analyze [''AAAAAA000000000000000001'', ''AAAAAA000000000000000002'',
      ''AAAAAA000000000000000003''] ! 0) \<and>
   Total_Payload_Bytes (group_and_analyze [''AAAAAA000000000000000001'', ''AAAAAA000000000000000002'',
      ''AAAAAA000000000000000003''] ! 0)
     < 12 * Suffix_Count (group_and_analyze [''AAAAAA000000000000000001'', ''AAAAAA000000000000000002'',
      ''AAAAAA000000000000000003''] ! 0)"
proof -
  have a: "0 < length (make_groups [''AAAAAA000000000000000001'', ''AAAAAA000000000000000002'',
      ''AAAAAA000000000000000003''])"
    by code_simp
  have b: "2 \<le> length (make_groups [''AAAAAA000000000000000001'', ''AAAAAA000000000000000002'',
      ''AAAAAA000000000000000003''] ! 0)"
    by code_simp
  have c: "0 < Prefix_Bytes (group_and_analyze [''AAAAAA000000000000000001'', ''AAAAAA000000000000000002'',
      ''AAAAAA000000000000000003''] ! 0)"
    by code_simp
  from compression_saves [OF a b c] a b c show ?thesis by simp
qed

section \<open>Properties of the packet codec\<close>

text \<open>
  The masks are remainders, a byte built from an integer reads back as its remainder
  modulo 256, and every hexadecimal digit of either case parses to the value whose
  lower-case digit has the same capital.
\<close>

lemma and_255: "(x::int) AND 255 = x mod 256"
proof -
  have "x AND mask 8 = take_bit 8 x" by (simp only: take_bit_eq_mask)
  then show ?thesis by (simp add: take_bit_eq_mod mask_eq_exp_minus_1)
qed

lemma and_65535: "(x::int) AND 65535 = x mod 65536"
proof -
  have "x AND mask 16 = take_bit 16 x" by (simp only: take_bit_eq_mask)
  then show ?thesis by (simp add: take_bit_eq_mod mask_eq_exp_minus_1)
qed

lemma unat_byte_of_int: "unat (word_of_int k :: byte) = nat (k mod 256)"
  by (simp add: unat_eq_nat_uint uint_word_of_int)

lemma upper_hexdigit:
  "v < 16 \<Longrightarrow> upper_char (hexdigits ! v) = ''0123456789ABCDEF'' ! v"
proof -
  assume "v < 16"
  then have "v \<in> set [0..<16]" by simp
  then have "v \<in> {0,1,2,3,4,5,6,7,8,9,10,11,12,13,14,15}" 
    by (simp add: upt_rec numeral_eq_Suc del: upt_Suc)
  then show ?thesis
    by (elim insertE emptyE) (simp_all add: upper_char_def hexdigits_def)
qed

lemma hex_char_table:
  assumes "c \<in> set ''0123456789ABCDEFabcdef''"
  shows "\<not> isspace c \<and> (\<exists>v < 16. hexval c = Some v \<and> ''0123456789ABCDEF'' ! v = upper_char c)"
proof -
  from assms have "c \<in> {CHR ''0'', CHR ''1'', CHR ''2'', CHR ''3'', CHR ''4'', CHR ''5'', CHR ''6'',
     CHR ''7'', CHR ''8'', CHR ''9'', CHR ''A'', CHR ''B'', CHR ''C'', CHR ''D'', CHR ''E'', CHR ''F'',
     CHR ''a'', CHR ''b'', CHR ''c'', CHR ''d'', CHR ''e'', CHR ''f''}"
    by simp
  then show ?thesis
    by (elim insertE emptyE) (simp_all add: isspace_def hexval_def upper_char_def)
qed

lemma hex_char:
  assumes "c \<in> set ''0123456789ABCDEFabcdef''"
  shows "\<not> isspace c \<and> (\<exists>v < 16. hexval c = Some v \<and> upper_char (hexdigits ! v) = upper_char c)"
  using hex_char_table [OF assms] upper_hexdigit by auto

lemma unat_hex_byte:
  assumes "hi < 16" and "lo < 16"
  shows "unat (word_of_nat (hi * 16 + lo) :: byte) = hi * 16 + lo"
proof -
  have "unat (word_of_nat (hi * 16 + lo) :: byte) = (hi * 16 + lo) mod 2 ^ LENGTH(8)"
    by (rule unat_of_nat)
  also have "\<dots> = hi * 16 + lo" using assms by simp
  finally show ?thesis .
qed

lemma upper_hex_Cons:
  assumes "hi < 16" and "lo < 16"
  shows "upper (hex ((word_of_nat (hi * 16 + lo) :: byte) # bs))
         = upper_char (hexdigits ! hi) # upper_char (hexdigits ! lo) # upper (hex bs)"
  using assms by (simp add: upper_def hex_def unat_hex_byte del: of_nat_add of_nat_mult)

lemma fromhex_hex_string:
  "even (length s) \<Longrightarrow> \<forall>c \<in> set s. c \<in> set ''0123456789ABCDEFabcdef'' \<Longrightarrow>
   \<exists>bs. fromhex s = Some bs \<and> 2 * length bs = length s \<and> upper (hex bs) = upper s"
proof (induction s rule: fromhex.induct)
  case 1
  show ?case by (simp add: hex_def upper_def)
next
  case (2 c)
  then show ?case by simp
next
  case (3 c d ds)
  from "3.prems" have c: "c \<in> set ''0123456789ABCDEFabcdef''"
    and d: "d \<in> set ''0123456789ABCDEFabcdef''"
    and ds: "\<forall>x \<in> set ds. x \<in> set ''0123456789ABCDEFabcdef''" and ev: "even (length ds)"
    by simp_all
  from hex_char [OF c] obtain hi where hi: "\<not> isspace c" "hi < 16" "hexval c = Some hi"
    "upper_char (hexdigits ! hi) = upper_char c" by blast
  from hex_char [OF d] obtain lo where lo: "lo < 16" "hexval d = Some lo"
    "upper_char (hexdigits ! lo) = upper_char d" by blast
  from "3.IH"(2) [OF hi(1) refl hi(3) lo(2) ev ds]
  obtain bs where bs: "fromhex ds = Some bs" "2 * length bs = length ds" "upper (hex bs) = upper ds"
    by blast
  have "fromhex (c # d # ds) = Some (word_of_nat (hi * 16 + lo) # bs)"
    using hi lo bs by simp
  moreover have "upper (hex ((word_of_nat (hi * 16 + lo) :: byte) # bs)) = upper (c # d # ds)"
    using upper_hex_Cons [OF hi(2) lo(1), of bs] hi(4) lo(3) bs(3) by (simp add: upper_def)
  ultimately show ?case using bs(2) by simp
qed

lemma fromhex_valid_epc:
  assumes "valid_epc e"
  shows "\<exists>bs. fromhex e = Some bs \<and> length bs = 12 \<and> upper (hex bs) = upper e"
proof -
  from assms have "even (length e)" and "\<forall>c \<in> set e. c \<in> set ''0123456789ABCDEFabcdef''"
    and "length e = 24"
    by (simp_all add: valid_epc_def)
  from fromhex_hex_string [OF this(1,2)] this(3) show ?thesis by auto
qed

lemma join_fromhex_valid:
  "\<forall>e \<in> set es. valid_epc e \<Longrightarrow>
   \<exists>bss. join_fromhex es = Some (concat bss) \<and> length bss = length es \<and>
         (\<forall>bs \<in> set bss. length bs = 12) \<and> map (\<lambda>bs. upper (hex bs)) bss = map upper es"
proof (induction es)
  case Nil
  show ?case by simp
next
  case (Cons e es)
  from Cons.prems fromhex_valid_epc [of e] obtain bs where
    bs: "fromhex e = Some bs" "length bs = 12" "upper (hex bs) = upper e" by auto
  from Cons obtain bss where bss: "join_fromhex es = Some (concat bss)" "length bss = length es"
    "\<forall>bs \<in> set bss. length bs = 12" "map (\<lambda>bs. upper (hex bs)) bss = map upper es" by auto
  show ?case
    by (rule exI [of _ "bs # bss"]) (simp add: bs bss)
qed

lemma decode_loop_chunks:
  "length pre = 12 * k \<Longrightarrow> \<forall>bs \<in> set bss. length bs = 12 \<Longrightarrow>
   decode_loop (pre @ concat bss) [k..<k + length bss] acc = acc @ map (\<lambda>bs. upper (hex bs)) bss"
proof (induction bss arbitrary: pre k acc)
  case Nil
  show ?case by simp
next
  case (Cons bs bss)
  have l: "length bs = 12" using Cons.prems by simp
  have r: "[k..<Suc (k + length bss)] = k # [Suc k..<Suc (k + length bss)]"
    by (simp add: upt_conv_Cons del: upt_Suc)
  have t: "take 12 (drop (k * 12) (pre @ bs @ concat bss)) = bs"
    using Cons.prems(1) l by simp
  have "decode_loop ((pre @ bs) @ concat bss) [Suc k..<Suc k + length bss] (acc @ [upper (hex bs)])
        = (acc @ [upper (hex bs)]) @ map (\<lambda>bs. upper (hex bs)) bss"
    using Cons.prems l by (intro Cons.IH) simp_all
  then show ?case
    using Cons.prems(1) l
    by (simp add: r epc_size_bytes_def t del: upt_Suc)
qed

lemma length_concat_chunks:
  "\<forall>bs \<in> set bss. length bs = n \<Longrightarrow> length (concat bss) = n * length bss"
  by (induction bss) simp_all

lemma roundtrip:
  assumes v: "\<forall>e \<in> set es. valid_epc e"
    and cap: "int (length es) \<le> max_epcs_per_packet self"
    and small: "length es < 256"
  shows "\<exists>payload. create_lorawan_payload self now es pid = Inr payload \<and>
           length payload = 4 + 12 * length es \<and>
           decode_payload self payload =
             Inr \<lparr>packet_id = nat (pid mod 256), epc_count = length es,
                  timestamp = nat (now mod 65536), epcs = map upper es\<rparr>"
proof -
  from join_fromhex_valid [OF v] obtain bss where
    bss: "join_fromhex es = Some (concat bss)" "length bss = length es"
      "\<forall>bs \<in> set bss. length bs = 12" "map (\<lambda>bs. upper (hex bs)) bss = map upper es" by blast
  define header where "header = create_packet_header now pid (int (length es))"
  have enc: "create_lorawan_payload self now es pid = Inr (header @ concat bss)"
    using cap by (simp add: create_lorawan_payload_def bss header_def)
  have hl: "length header = 4" by (simp add: header_def create_packet_header_def Let_def)
  have cl: "length (concat bss) = 12 * length es"
    using length_concat_chunks [OF bss(3)] bss(2) by simp
  have h0: "unat ((header @ concat bss) ! 0) = nat (pid mod 256)"
    by (simp add: header_def create_packet_header_def Let_def and_255 unat_byte_of_int)
  have h1: "unat ((header @ concat bss) ! 1) = length es"
    using small
    by (simp add: header_def create_packet_header_def Let_def and_255 unat_byte_of_int unat_of_nat)
  have h23: "unat ((header @ concat bss) ! 2) * 256 + unat ((header @ concat bss) ! 3)
             = nat (now mod 65536)"
  proof -
    define t where "t = now AND 0xFFFF"
    have tm: "t = now mod 65536" by (simp add: t_def and_65535)
    then have t: "0 \<le> t" "t < 65536" by simp_all
    have hdr: "header = [word_of_int (pid AND 0xFF), word_of_int (int (length es) AND 0xFF),
                         word_of_int (t div 256), word_of_int (t mod 256)]"
      by (simp add: header_def create_packet_header_def Let_def t_def)
    have h2: "unat ((header @ concat bss) ! 2) = nat (t div 256)"
      using t by (simp add: hdr unat_byte_of_int numeral_2_eq_2)
    have h3: "unat ((header @ concat bss) ! 3) = nat (t mod 256)"
      by (simp add: hdr unat_byte_of_int numeral_3_eq_3)
    have "nat (t div 256) * 256 + nat (t mod 256) = nat t"
      using t by (simp add: nat_div_distrib nat_mod_distrib)
    then show ?thesis by (simp only: h2 h3 tm)
  qed
  have dl: "decode_loop (drop 4 (header @ concat bss)) [0..<length es] [] = map upper es"
    using decode_loop_chunks [of "[]" 0 bss "[]"] bss hl by simp
  have "decode_payload self (header @ concat bss) =
             Inr \<lparr>packet_id = nat (pid mod 256), epc_count = length es,
                  timestamp = nat (now mod 65536), epcs = map upper es\<rparr>"
    using hl h0 h1 h23 dl by (simp add: decode_payload_def header_size_def Let_def)
  with enc hl cl show ?thesis by simp
qed

text \<open>
  Every calculator built from the table of \<^verbatim>\<open>_calculate_max_payload_size\<close> has room for
  three EPCs in a packet.
\<close>

lemma init_capacity: "3 \<le> max_epcs_per_packet (init spreading bandwidth coding None)"
  by (simp add: init_def calculate_max_payload_size_def sf_limits_def header_size_def
      epc_size_bytes_def)

text \<open>A string of digits and capital letters A to F is its own upper case.\<close>

lemma upper_capital:
  "\<forall>c \<in> set s. c \<in> set ''0123456789ABCDEF'' \<Longrightarrow> upper s = s"
proof -
  have "c \<in> set ''0123456789ABCDEF'' \<Longrightarrow> upper_char c = c" for c
  proof -
    assume "c \<in> set ''0123456789ABCDEF''"
    then have "c \<in> {CHR ''0'', CHR ''1'', CHR ''2'', CHR ''3'', CHR ''4'', CHR ''5'',
       CHR ''6'', CHR ''7'', CHR ''8'', CHR ''9'', CHR ''A'', CHR ''B'', CHR ''C'', CHR ''D'',
       CHR ''E'', CHR ''F''}" by simp
    then show ?thesis by (elim insertE emptyE) (simp_all add: upper_char_def)
  qed
  then show "\<forall>c \<in> set s. c \<in> set ''0123456789ABCDEF'' \<Longrightarrow> upper s = s"
    by (simp add: upper_def map_idI)
qed

text \<open>The definitions that evaluate the codec on a concrete input.\<close>

lemmas codec_eval = create_lorawan_payload_def init_def calculate_max_payload_size_def sf_limits_def
      header_size_def epc_size_bytes_def create_packet_header_def isspace_def hexval_def
      decode_payload_def hex_def upper_def upper_char_def hexdigits_def valid_epc_def Let_def

text \<open>
  C9: \<^verbatim>\<open>create_lorawan_payload\<close> fails with its \<^verbatim>\<open>ValueError\<close> (CapacityExceeded in the
  specification) whenever it is called with more EPCs than \<^verbatim>\<open>max_epcs_per_packet\<close>; with at
  most that many EPCs, each a valid string of 24 hexadecimal characters, it returns
  \<open>4 + 12 * len(epcs)\<close> bytes.
\<close>

theorem payload_capacity:
  "(int (length epc_list) > max_epcs_per_packet self \<longrightarrow>
      create_lorawan_payload self now epc_list pkt_id = Inl (TooManyEPCs (max_epcs_per_packet self))) \<and>
   (int (length epc_list) \<le> max_epcs_per_packet self \<and> (\<forall>e \<in> set epc_list. valid_epc e) \<longrightarrow>
      (\<exists>payload. create_lorawan_payload self now epc_list pkt_id = Inr payload \<and>
                 length payload = 4 + 12 * length epc_list))"
proof (intro conjI impI)
  assume "int (length epc_list) > max_epcs_per_packet self"
  then show "create_lorawan_payload self now epc_list pkt_id
             = Inl (TooManyEPCs (max_epcs_per_packet self))"
    by (simp add: create_lorawan_payload_def)
next
  assume a: "int (length epc_list) \<le> max_epcs_per_packet self \<and> (\<forall>e \<in> set epc_list. valid_epc e)"
  from join_fromhex_valid [of epc_list] a obtain bss where
    bss: "join_fromhex epc_list = Some (concat bss)" "length bss = length epc_list"
      "\<forall>bs \<in> set bss. length bs = 12" by blast
  have "create_lorawan_payload self now epc_list pkt_id
        = Inr (create_packet_header now pkt_id (int (length epc_list)) @ concat bss)"
    using a by (simp add: create_lorawan_payload_def bss)
  moreover have "length (create_packet_header now pkt_id (int (length epc_list)) @ concat bss)
        = 4 + 12 * length epc_list"
    using length_concat_chunks [OF bss(3)] bss(2)
    by (simp add: create_packet_header_def Let_def)
  ultimately show "\<exists>payload. create_lorawan_payload self now epc_list pkt_id = Inr payload \<and>
                 length payload = 4 + 12 * length epc_list"
    by simp
qed

theorem payload_capacity_witness:
  "create_lorawan_payload (init 12 125 1 None) 1700000000
     [''AAAAAA000000000000000001'', ''AAAAAA000000000000000002'',
      ''AAAAAA000000000000000003'', ''AAAAAA000000000000000004''] 0
   = Inl (TooManyEPCs 3) \<and>
   create_lorawan_payload (init 12 125 1 None) 1700000000 [''AAAAAA000000000000000001''] 0
   = Inr [0, 1, 0xF1, 0, 0xAA, 0xAA, 0xAA, 0, 0, 0, 0, 0, 0, 0, 0, 1] \<and>
   length [0, 1, 0xF1, 0, 0xAA, 0xAA, 0xAA, 0, 0, 0, 0, 0, 0, 0, 0, 1 :: byte] = 4 + 12 * 1"
proof -
  have m: "max_epcs_per_packet (init 12 125 1 None) = 3"
    by (simp add: codec_eval)
  have v: "valid_epc ''AAAAAA000000000000000001''"
    by (simp add: codec_eval)
  have e: "create_lorawan_payload (init 12 125 1 None) 1700000000 [''AAAAAA000000000000000001''] 0
   = Inr [0, 1, 0xF1, 0, 0xAA, 0xAA, 0xAA, 0, 0, 0, 0, 0, 0, 0, 0, 1]"
    by (simp add: codec_eval)
  from payload_capacity [where epc_list = "[''AAAAAA000000000000000001'',
        ''AAAAAA000000000000000002'', ''AAAAAA000000000000000003'', ''AAAAAA000000000000000004'']"
      and self = "init 12 125 1 None" and now = 1700000000 and pkt_id = 0]
    payload_capacity [where epc_list = "[''AAAAAA000000000000000001'']"
      and self = "init 12 125 1 None" and now = 1700000000 and pkt_id = 0]
    m v e
  show ?thesis by simp
qed

text \<open>
  C4 (as amended): for every valid EPC string, in a calculator with room for one EPC,
  decoding the encoding of \<open>[epc]\<close> with packet id 0 yields the upper case of \<open>epc\<close>,
  which is \<open>epc\<close> itself when \<open>epc\<close> has no lower-case letter; and, in a calculator with
  room for three EPCs, encoding three valid EPCs with packet id 5 and decoding yields
  epc\_count = 3, packet\_id = 5 and the upper case of the three EPCs in their order.
\<close>

theorem roundtrip_upper:
  "(valid_epc epc \<and> 1 \<le> max_epcs_per_packet self \<longrightarrow>
      (\<exists>payload r. create_lorawan_payload self now [epc] 0 = Inr payload \<and>
         decode_payload self payload = Inr r \<and> epcs r = [upper epc])) \<and>
   (valid_epc e1 \<and> valid_epc e2 \<and> valid_epc e3 \<and> 3 \<le> max_epcs_per_packet self \<longrightarrow>
      (\<exists>payload r. create_lorawan_payload self now [e1, e2, e3] 5 = Inr payload \<and>
         decode_payload self payload = Inr r \<and> epc_count r = 3 \<and> packet_id r = 5 \<and>
         epcs r = [upper e1, upper e2, upper e3])) \<and>
   ((\<forall>c \<in> set epc. c \<in> set ''0123456789ABCDEF'') \<longrightarrow> upper epc = epc)"
proof (intro conjI impI)
  assume a: "valid_epc epc \<and> 1 \<le> max_epcs_per_packet self"
  then have "\<forall>e \<in> set [epc]. valid_epc e" "int (length [epc]) \<le> max_epcs_per_packet self"
    "length [epc] < 256" by simp_all
  from roundtrip [OF this, of now 0] obtain payload where
    "create_lorawan_payload self now [epc] 0 = Inr payload"
    "decode_payload self payload =
       Inr \<lparr>packet_id = nat (0 mod 256), epc_count = length [epc],
            timestamp = nat (now mod 65536), epcs = map upper [epc]\<rparr>" by blast
  then show "\<exists>payload r. create_lorawan_payload self now [epc] 0 = Inr payload \<and>
         decode_payload self payload = Inr r \<and> epcs r = [upper epc]"
    by simp
next
  assume a: "valid_epc e1 \<and> valid_epc e2 \<and> valid_epc e3 \<and> 3 \<le> max_epcs_per_packet self"
  then have "\<forall>e \<in> set [e1, e2, e3]. valid_epc e"
    "int (length [e1, e2, e3]) \<le> max_epcs_per_packet self"
    "length [e1, e2, e3] < 256" by simp_all
  from roundtrip [OF this, of now 5] obtain payload where
    "create_lorawan_payload self now [e1, e2, e3] 5 = Inr payload"
    "decode_payload self payload =
       Inr \<lparr>packet_id = nat (5 mod 256), epc_count = length [e1, e2, e3],
            timestamp = nat (now mod 65536), epcs = map upper [e1, e2, e3]\<rparr>" by blast
  then show "\<exists>payload r. create_lorawan_payload self now [e1, e2, e3] 5 = Inr payload \<and>
         decode_payload self payload = Inr r \<and> epc_count r = 3 \<and> packet_id r = 5 \<and>
         epcs r = [upper e1, upper e2, upper e3]"
    by simp
next
  assume "\<forall>c \<in> set epc. c \<in> set ''0123456789ABCDEF''"
  then show "upper epc = epc" by (rule upper_capital)
qed

theorem roundtrip_upper_witness:
  "valid_epc ''aaaaaa000000000000000001'' \<and> valid_epc ''BBBBBB000000000000000002'' \<and>
   valid_epc ''cccccc00000000000000000f'' \<and>
   3 \<le> max_epcs_per_packet (init 12 125 1 None) \<and>
   (case create_lorawan_payload (init 12 125 1 None) 1700000000
           [''aaaaaa000000000000000001''] 0 of
      Inl err \<Rightarrow> False
    | Inr payload \<Rightarrow>
        (case decode_payload (init 12 125 1 None) payload of
           Inl err \<Rightarrow> False
         | Inr r \<Rightarrow> epcs r = [''AAAAAA000000000000000001''])) \<and>
   (case create_lorawan_payload (init 12 125 1 None) 1700000000
           [''aaaaaa000000000000000001'', ''BBBBBB000000000000000002'',
            ''cccccc00000000000000000f''] 5 of
      Inl err \<Rightarrow> False
    | Inr payload \<Rightarrow>
        (case decode_payload (init 12 125 1 None) payload of
           Inl err \<Rightarrow> False
         | Inr r \<Rightarrow> epc_count r = 3 \<and> packet_id r = 5 \<and>
             epcs r = [''AAAAAA000000000000000001'', ''BBBBBB000000000000000002'',
                       ''CCCCCC00000000000000000F'']))"
proof -
  have v: "valid_epc ''aaaaaa000000000000000001'' \<and> valid_epc ''BBBBBB000000000000000002'' \<and>
     valid_epc ''cccccc00000000000000000f'' \<and> 3 \<le> max_epcs_per_packet (init 12 125 1 None)"
    by (simp add: codec_eval)
  have u: "upper ''aaaaaa000000000000000001'' = ''AAAAAA000000000000000001''"
    "upper ''BBBBBB000000000000000002'' = ''BBBBBB000000000000000002''"
    "upper ''cccccc00000000000000000f'' = ''CCCCCC00000000000000000F''"
    by (simp_all add: upper_def upper_char_def)
  from v have v1: "valid_epc ''aaaaaa000000000000000001'' \<and> 1 \<le> max_epcs_per_packet (init 12 125 1 None)"
    by simp
  from roundtrip_upper [where self = "init 12 125 1 None" and now = 1700000000
      and epc = "''aaaaaa000000000000000001''" and ?e1.0 = "''aaaaaa000000000000000001''"
      and ?e2.0 = "''BBBBBB000000000000000002''" and ?e3.0 = "''cccccc00000000000000000f''"]
    v v1 u
  show ?thesis by auto
qed

text \<open>
  The first half of C4 as stated, that decoding recovers every valid EPC unchanged,
  fails on a valid EPC with lower-case letters: \<^verbatim>\<open>decode_payload\<close> returns
  \<^verbatim>\<open>epc_bytes.hex().upper()\<close>.
\<close>

theorem roundtrip_lower_case_counterexample:
  "valid_epc ''aaaaaa000000000000000001'' \<and>
   create_lorawan_payload (init 12 125 1 None) 1700000000 [''aaaaaa000000000000000001''] 0
   = Inr [0, 1, 0xF1, 0, 0xAA, 0xAA, 0xAA, 0, 0, 0, 0, 0, 0, 0, 0, 1] \<and>
   decode_payload (init 12 125 1 None) [0, 1, 0xF1, 0, 0xAA, 0xAA, 0xAA, 0, 0, 0, 0, 0, 0, 0, 0, 1]
   = Inr \<lparr>packet_id = 0, epc_count = 1, timestamp = 61696,
          epcs = [''AAAAAA000000000000000001'']\<rparr> \<and>
   [''AAAAAA000000000000000001''] \<noteq> [''aaaaaa000000000000000001'']"
  by (simp add: codec_eval)

section \<open>Properties of the airtime and of the transmission plan\<close>

text \<open>
  With a bandwidth other than 0 and a spreading factor other than 2 the airtime is
  computed, and the frame lasts the preamble and the payload symbols.
\<close>

lemma pow2_pos: "0 < pow2 e"
  by (simp add: pow2_def)

lemma airtime_returns:
  assumes "bw self \<noteq> 0" and "sf self \<noteq> 2"
  shows "\<exists>a. calculate_airtime_parameters self p = Inr a \<and>
     T_frame_ms a =
       ((8 + 4.25) * (pow2 (sf self) / real_of_int (bw self * 1000))
        + (8 + max (real_of_int (8 * p - 4 * sf self + 28 + 16
                                 - 20 * (if sf self \<ge> 11 then 1 else 0))
                    / real_of_int (4 * (sf self - 2))) 0
               * real_of_int (cr self + 4))
          * (pow2 (sf self) / real_of_int (bw self * 1000))) * 1000"
  using assms by (simp add: calculate_airtime_parameters_def Let_def)

lemma symbols_mono:
  fixes k d c :: int
  assumes "0 < d" and "0 \<le> c" and "p1 \<le> p2"
  shows "8 + max (real_of_int (8 * p1 + k) / real_of_int d) 0 * real_of_int c
         \<le> 8 + max (real_of_int (8 * p2 + k) / real_of_int d) 0 * real_of_int c"
proof -
  have "real_of_int (8 * p1 + k) \<le> real_of_int (8 * p2 + k)"
    using assms(3) by simp
  then have "real_of_int (8 * p1 + k) / real_of_int d \<le> real_of_int (8 * p2 + k) / real_of_int d"
    using assms(1) by (intro divide_right_mono) simp_all
  then have "max (real_of_int (8 * p1 + k) / real_of_int d) 0
             \<le> max (real_of_int (8 * p2 + k) / real_of_int d) 0"
    by (rule max.mono) simp
  then have "max (real_of_int (8 * p1 + k) / real_of_int d) 0 * real_of_int c
             \<le> max (real_of_int (8 * p2 + k) / real_of_int d) 0 * real_of_int c"
    using assms(2) by (intro mult_right_mono) simp_all
  then show ?thesis by simp
qed

lemma airtime_mono:
  assumes bw: "0 < bw self" and sf: "2 < sf self" and cr: "0 \<le> cr self + 4" and le: "p1 \<le> p2"
  shows "\<exists>a1 a2. calculate_airtime_parameters self p1 = Inr a1 \<and>
           calculate_airtime_parameters self p2 = Inr a2 \<and> T_frame_ms a1 \<le> T_frame_ms a2"
proof -
  define T where "T = pow2 (sf self) / real_of_int (bw self * 1000)"
  define k where "k = - 4 * sf self + 28 + 16 - 20 * (if sf self \<ge> 11 then 1 else 0)"
  define N where "N p = 8 + max (real_of_int (8 * p + k) / real_of_int (4 * (sf self - 2))) 0
                            * real_of_int (cr self + 4)" for p
  have Tpos: "0 \<le> T" using bw pow2_pos [of "sf self"] by (simp add: T_def)
  have ne: "bw self \<noteq> 0" "sf self \<noteq> 2" using bw sf by simp_all
  from airtime_returns [OF ne, of p1] obtain a1 where
    a1: "calculate_airtime_parameters self p1 = Inr a1"
        "T_frame_ms a1 = ((8 + 4.25) * T + N p1 * T) * 1000"
    by (auto simp: T_def N_def k_def algebra_simps)
  from airtime_returns [OF ne, of p2] obtain a2 where
    a2: "calculate_airtime_parameters self p2 = Inr a2"
        "T_frame_ms a2 = ((8 + 4.25) * T + N p2 * T) * 1000"
    by (auto simp: T_def N_def k_def algebra_simps)
  have "N p1 \<le> N p2"
    unfolding N_def using sf cr le by (intro symbols_mono) simp_all
  then have "N p1 * T \<le> N p2 * T"
    using Tpos by (rule mult_right_mono)
  then have "T_frame_ms a1 \<le> T_frame_ms a2"
    by (simp add: a1 a2)
  with a1 a2 show ?thesis by blast
qed

lemmas planner_eval = calculate_transmission_plan_def lots_per_day_def T_batch_current_def
  N_frames_def calculate_airtime_parameters_def init_def calculate_max_payload_size_def
  sf_limits_def header_size_def epc_size_bytes_def pow2_def Let_def

text \<open>
  C7: for a fixed spreading factor from 7 to 12, a bandwidth of 125, 250 or 500 and a
  coding rate from 1 to 4, the frame duration \<^verbatim>\<open>T_frame_ms\<close> of
  \<^verbatim>\<open>calculate_airtime_parameters\<close> does not decrease when the payload grows: both calls
  return, and \<open>p1 \<le> p2\<close> gives \<open>T_frame_ms(p1) \<le> T_frame_ms(p2)\<close>.
\<close>

theorem frame_duration_monotone:
  assumes "7 \<le> spreading" and "spreading \<le> 12" and "bandwidth \<in> {125, 250, 500}"
    and "1 \<le> coding" and "coding \<le> 4" and "p1 \<le> p2"
  shows "\<exists>a1 a2.
           calculate_airtime_parameters (init spreading bandwidth coding payload_size) p1 = Inr a1 \<and>
           calculate_airtime_parameters (init spreading bandwidth coding payload_size) p2 = Inr a2 \<and>
           T_frame_ms a1 \<le> T_frame_ms a2"
proof (rule airtime_mono)
  show "0 < bw (init spreading bandwidth coding payload_size)"
    using assms(3) by (auto simp: init_def Let_def)
  show "2 < sf (init spreading bandwidth coding payload_size)"
    using assms(1) by (simp add: init_def Let_def)
  show "0 \<le> cr (init spreading bandwidth coding payload_size) + 4"
    using assms(4) by (simp add: init_def Let_def)
  show "p1 \<le> p2" by (rule assms(6))
qed

theorem frame_duration_monotone_witness:
  "calculate_airtime_parameters (init 12 125 1 None) 16
   = Inr \<lparr>T_sym_ms = 4096 / 125, T_pream_ms = 50176 / 125, N_payload = 21,
          T_payload_ms = 86016 / 125, T_frame_ms = 136192 / 125, EPC_frame = 3\<rparr> \<and>
   calculate_airtime_parameters (init 12 125 1 None) 51
   = Inr \<lparr>T_sym_ms = 4096 / 125, T_pream_ms = 50176 / 125, N_payload = 56,
          T_payload_ms = 229376 / 125, T_frame_ms = 279552 / 125, EPC_frame = 3\<rparr> \<and>
   (136192 / 125 :: real) \<le> 279552 / 125"
proof -
  have h: "(7::int) \<le> 12" "(12::int) \<le> 12" "(125::int) \<in> {125, 250, 500}"
    "(1::int) \<le> 1" "(1::int) \<le> 4" "(16::int) \<le> 51"
    by simp_all
  have a: "calculate_airtime_parameters (init 12 125 1 None) 16
   = Inr \<lparr>T_sym_ms = 4096 / 125, T_pream_ms = 50176 / 125, N_payload = 21,
          T_payload_ms = 86016 / 125, T_frame_ms = 136192 / 125, EPC_frame = 3\<rparr>"
    by (simp add: planner_eval)
  have b: "calculate_airtime_parameters (init 12 125 1 None) 51
   = Inr \<lparr>T_sym_ms = 4096 / 125, T_pream_ms = 50176 / 125, N_payload = 56,
          T_payload_ms = 229376 / 125, T_frame_ms = 279552 / 125, EPC_frame = 3\<rparr>"
    by (simp add: planner_eval)
  from frame_duration_monotone [OF h, of None] a b show ?thesis by simp
qed

subsection \<open>The plan\<close>

text \<open>
  One EPC or more in a calculator with room for one EPC in a packet needs one frame or
  more; a frame lasts a positive time; so the batch lasts a positive time and the last
  division of the plan is defined.
\<close>

lemma N_frames_pos:
  assumes "1 \<le> max_epcs_per_packet self" and "1 \<le> n"
  shows "\<exists>f. N_frames self n = Inr f \<and> 1 \<le> f \<and>
           f = \<lceil>real_of_int n / real_of_int (max_epcs_per_packet self)\<rceil>"
proof -
  have "0 < real_of_int n / real_of_int (max_epcs_per_packet self)"
    using assms by simp
  then have "1 \<le> \<lceil>real_of_int n / real_of_int (max_epcs_per_packet self)\<rceil>"
    by linarith
  then show ?thesis using assms by (simp add: N_frames_def)
qed

lemma frame_pos:
  assumes bw: "0 < bw self" and sf: "2 < sf self" and cr: "0 \<le> cr self + 4"
  shows "\<exists>a. calculate_airtime_parameters self p = Inr a \<and> 0 < T_frame_ms a"
proof -
  define T where "T = pow2 (sf self) / real_of_int (bw self * 1000)"
  define M where "M = max (real_of_int (8 * p - 4 * sf self + 28 + 16
                                 - 20 * (if sf self \<ge> 11 then 1 else 0))
                    / real_of_int (4 * (sf self - 2))) 0 * real_of_int (cr self + 4)"
  have Tpos: "0 < T" using bw pow2_pos [of "sf self"] by (simp add: T_def)
  have "0 \<le> M" unfolding M_def using cr by (intro mult_nonneg_nonneg) simp_all
  then have "0 \<le> (8 + M) * T"
    using Tpos by (intro mult_nonneg_nonneg) simp_all
  moreover have "0 < (8 + 4.25) * T"
    using Tpos by simp
  ultimately have "0 < (8 + 4.25) * T + (8 + M) * T"
    by (rule add_pos_nonneg [rotated])
  moreover have ne: "bw self \<noteq> 0" "sf self \<noteq> 2" using bw sf by simp_all
  from airtime_returns [OF ne, of p] obtain a where
    "calculate_airtime_parameters self p = Inr a"
    "T_frame_ms a = ((8 + 4.25) * T + (8 + M) * T) * 1000"
    by (auto simp: T_def M_def)
  ultimately show ?thesis by auto
qed

lemma plan_returns:
  assumes bw: "0 < bw self" and sf: "2 < sf self" and cr: "0 \<le> cr self + 4"
    and cap: "1 \<le> max_epcs_per_packet self" and n: "1 \<le> n"
  shows "\<exists>a. calculate_airtime_parameters self (max_payload_size self) = Inr a \<and>
     calculate_transmission_plan self n =
       Inr \<lparr>total_epcs = n,
            frames_needed = \<lceil>real_of_int n / real_of_int (max_epcs_per_packet self)\<rceil>,
            epcs_per_frame = max_epcs_per_packet self,
            frame_duration_ms = T_frame_ms a,
            batch_duration_ms =
              real_of_int \<lceil>real_of_int n / real_of_int (max_epcs_per_packet self)\<rceil> * T_frame_ms a,
            batch_duration_s =
              real_of_int \<lceil>real_of_int n / real_of_int (max_epcs_per_packet self)\<rceil> * T_frame_ms a
              / 1000,
            max_batches_per_day =
              \<lfloor>864000 / (real_of_int \<lceil>real_of_int n / real_of_int (max_epcs_per_packet self)\<rceil>
                            * T_frame_ms a)\<rfloor>,
            max_epcs_per_day =
              \<lfloor>864000 / (real_of_int \<lceil>real_of_int n / real_of_int (max_epcs_per_packet self)\<rceil>
                            * T_frame_ms a)\<rfloor> * n,
            parameters = a\<rparr>"
proof -
  from frame_pos [OF bw sf cr, of "max_payload_size self"] obtain a where
    a: "calculate_airtime_parameters self (max_payload_size self) = Inr a" "0 < T_frame_ms a"
    by blast
  from N_frames_pos [OF cap n] obtain f where
    f: "N_frames self n = Inr f" "1 \<le> f"
       "f = \<lceil>real_of_int n / real_of_int (max_epcs_per_packet self)\<rceil>" by blast
  have b: "T_batch_current self n = Inr (real_of_int f * T_frame_ms a)"
    by (simp add: T_batch_current_def f(1) a(1))
  have l: "lots_per_day self n = Inr \<lfloor>864000 / (real_of_int f * T_frame_ms a)\<rfloor>"
    using f(2) a(2) by (simp add: lots_per_day_def b)
  have "calculate_transmission_plan self n =
       Inr \<lparr>total_epcs = n, frames_needed = f, epcs_per_frame = max_epcs_per_packet self,
            frame_duration_ms = T_frame_ms a,
            batch_duration_ms = real_of_int f * T_frame_ms a,
            batch_duration_s = real_of_int f * T_frame_ms a / 1000,
            max_batches_per_day = \<lfloor>864000 / (real_of_int f * T_frame_ms a)\<rfloor>,
            max_epcs_per_day = \<lfloor>864000 / (real_of_int f * T_frame_ms a)\<rfloor> * n,
            parameters = a\<rparr>"
    by (simp add: calculate_transmission_plan_def f(1) a(1) b l)
  with a(1) f(3) show ?thesis by simp
qed

lemma init_fields:
  "sf (init spreading bandwidth coding payload_size) = spreading"
  "bw (init spreading bandwidth coding payload_size) = bandwidth"
  "cr (init spreading bandwidth coding payload_size) = coding"
  by (simp_all add: init_def Let_def)




text \<open>
  C10: for 0 EPCs, in a radio configuration with max\_epcs\_per\_packet at least 1, the
  plan computes 0 frames and a batch duration of 0, and the division of the daily cap,
  \<^verbatim>\<open>math.floor(T_max_per_day / T_batch_current)\<close>, raises \<^verbatim>\<open>ZeroDivisionError\<close>: the method
  fails. From 1 EPC on it returns.
\<close>

theorem plan_zero_epcs:
  assumes "7 \<le> spreading" and "spreading \<le> 12" and "bandwidth \<in> {125, 250, 500}"
    and "1 \<le> coding" and "coding \<le> 4"
    and "1 \<le> max_epcs_per_packet (init spreading bandwidth coding payload_size)"
  shows "N_frames (init spreading bandwidth coding payload_size) 0 = Inr 0 \<and>
         T_batch_current (init spreading bandwidth coding payload_size) 0 = Inr 0 \<and>
         lots_per_day (init spreading bandwidth coding payload_size) 0 = Inl ZeroDivisionError \<and>
         calculate_transmission_plan (init spreading bandwidth coding payload_size) 0
           = Inl ZeroDivisionError \<and>
         (\<forall>n \<ge> 1. \<exists>pl. calculate_transmission_plan (init spreading bandwidth coding payload_size) n
                          = Inr pl)"
proof -
  define self where "self = init spreading bandwidth coding payload_size"
  have r: "0 < bw self" "2 < sf self" "0 \<le> cr self + 4"
    using assms by (auto simp: init_fields self_def)
  have cap: "1 \<le> max_epcs_per_packet self" using assms(6) by (simp add: self_def)
  have f: "N_frames self 0 = Inr 0"
    using cap by (simp add: N_frames_def)
  from frame_pos [OF r, of "max_payload_size self"] obtain a where
    a: "calculate_airtime_parameters self (max_payload_size self) = Inr a" by blast
  have b: "T_batch_current self 0 = Inr 0"
    by (simp add: T_batch_current_def f a)
  have l: "lots_per_day self 0 = Inl ZeroDivisionError"
    by (simp add: lots_per_day_def b)
  have p: "calculate_transmission_plan self 0 = Inl ZeroDivisionError"
    by (simp add: calculate_transmission_plan_def f a b l)
  have "\<exists>pl. calculate_transmission_plan self n = Inr pl" if "1 \<le> n" for n
    using plan_returns [OF r cap that] by blast
  with f b l p show ?thesis unfolding self_def by blast
qed

theorem plan_zero_epcs_witness:
  "1 \<le> max_epcs_per_packet (init 12 125 1 None) \<and>
   N_frames (init 12 125 1 None) 0 = Inr 0 \<and>
   T_batch_current (init 12 125 1 None) 0 = Inr 0 \<and>
   lots_per_day (init 12 125 1 None) 0 = Inl ZeroDivisionError \<and>
   calculate_transmission_plan (init 12 125 1 None) 0 = Inl ZeroDivisionError \<and>
   isl (calculate_transmission_plan (init 12 125 1 None) 0) \<and>
   \<not> isl (calculate_transmission_plan (init 12 125 1 None) 1)"
proof -
  have h: "(7::int) \<le> 12" "(12::int) \<le> 12" "(125::int) \<in> {125, 250, 500}"
    "(1::int) \<le> 1" "(1::int) \<le> 4" "1 \<le> max_epcs_per_packet (init 12 125 1 None)"
    by (simp_all add: planner_eval)
  from plan_zero_epcs [OF h] h(6) show ?thesis by auto
qed

end
